theory Spec2Isabelle
  imports Main "HOL-Library.FSet"
begin

section \<open>Shallow embedding of \<open>miner_demo/multi_site_miner.py\<close>\<close>

text \<open>
  The module is a sequential crawler: \<open>Fetcher.get\<close> (a GET with retries),
  \<open>robots_allows\<close> (a minimal robots.txt check), two example parsers and the
  orchestrator \<open>mine_target\<close>. Exceptions are values of a sum type (\<open>Inl\<close> the
  exception), the network is an oracle indexed by the number of requests sent so far,
  and the library functions the module calls (\<open>urlparse\<close>, \<open>urljoin\<close>) are fields of
  an environment record, so that every general theorem holds for whatever they compute.
  Time itself is not modelled, but every call that sleeps or computes a delay is, with
  the exceptions it can raise. \<open>print\<close> has no influence on any returned value and is
  left out.
\<close>

subsection \<open>Exceptions and Python values\<close>

text \<open>
  The exceptions of \<open>requests\<close> that a GET can raise. \<open>get\<close> catches
  \<open>Timeout\<close>, \<open>ConnectionError\<close> and \<open>HTTPError\<close> (line 74); every other
  \<open>RequestException\<close> (too many redirects, invalid URL, ...) is not caught there.
\<close>

datatype request_error =
    Timeout
  | ConnectionError
  | HTTPError int
  | OtherRequestException

datatype error =
    RequestError request_error
  | RuntimeError_Unreachable
  | ValueError
  | OverflowError
  | AttributeError
  | TypeError
  | IndexError
  | JSONDecodeError
  | OtherException

text \<open>
  Python values as \<open>json.loads\<close> produces them and as the parsers put them into rows.
  A dict is an association list with distinct keys; \<open>dict.get\<close> is \<open>map_of\<close>.
  A float is kept as mantissa and exponent; the code only copies it.
\<close>

datatype pyval =
    PNone
  | PBool bool
  | PInt int
  | PFloat int int
  | PStr string
  | PList "pyval list"
  | PDict "(string \<times> pyval) list"

type_synonym row = "(string \<times> pyval) list"

subsection \<open>String methods\<close>

text \<open>
  A \<open>string\<close> is a list of code points below 256, the character \<open>CHR n\<close> being the
  code point \<open>n\<close>; the methods below are Python's \<open>str\<close> methods on such text.
  \<open>py_isspace\<close> is \<open>str.isspace\<close> on one character: the white space that
  \<open>strip\<close> and \<open>split\<close> remove, the no-break space and the next-line control
  among it.
\<close>

definition py_isspace :: "char \<Rightarrow> bool" where
  "py_isspace c \<longleftrightarrow> c \<in> set [CHR 0x09, CHR 0x0A, CHR 0x0B, CHR 0x0C, CHR 0x0D,
                              CHR 0x1C, CHR 0x1D, CHR 0x1E, CHR 0x1F, CHR 0x20,
                              CHR 0x85, CHR 0xA0]"

definition strip :: "string \<Rightarrow> string" where
  "strip s = rev (dropWhile py_isspace (rev (dropWhile py_isspace s)))"

text \<open>\<open>str.lower\<close>: the cased code points below 256 are the letters A to Z and
  the letters from 0xC0 to 0xDE without the multiplication sign 0xD7; the lower-case
  letter is 32 code points further.\<close>

definition upper_letters :: string where
  "upper_letters = ''ABCDEFGHIJKLMNOPQRSTUVWXYZ'' @
     [CHR 0xC0, CHR 0xC1, CHR 0xC2, CHR 0xC3, CHR 0xC4, CHR 0xC5, CHR 0xC6, CHR 0xC7,
      CHR 0xC8, CHR 0xC9, CHR 0xCA, CHR 0xCB, CHR 0xCC, CHR 0xCD, CHR 0xCE, CHR 0xCF,
      CHR 0xD0, CHR 0xD1, CHR 0xD2, CHR 0xD3, CHR 0xD4, CHR 0xD5, CHR 0xD6,
      CHR 0xD8, CHR 0xD9, CHR 0xDA, CHR 0xDB, CHR 0xDC, CHR 0xDD, CHR 0xDE]"

definition lower_letters :: string where
  "lower_letters = ''abcdefghijklmnopqrstuvwxyz'' @
     [CHR 0xE0, CHR 0xE1, CHR 0xE2, CHR 0xE3, CHR 0xE4, CHR 0xE5, CHR 0xE6, CHR 0xE7,
      CHR 0xE8, CHR 0xE9, CHR 0xEA, CHR 0xEB, CHR 0xEC, CHR 0xED, CHR 0xEE, CHR 0xEF,
      CHR 0xF0, CHR 0xF1, CHR 0xF2, CHR 0xF3, CHR 0xF4, CHR 0xF5, CHR 0xF6,
      CHR 0xF8, CHR 0xF9, CHR 0xFA, CHR 0xFB, CHR 0xFC, CHR 0xFD, CHR 0xFE]"

definition lower_char :: "char \<Rightarrow> char" where
  "lower_char c =
     (case map_of (zip upper_letters lower_letters) c of
        Some d \<Rightarrow> d
      | None \<Rightarrow> c)"

definition lower :: "string \<Rightarrow> string" where
  "lower s = map lower_char s"

definition startswith :: "string \<Rightarrow> string \<Rightarrow> bool" where
  "startswith s p \<longleftrightarrow> take (length p) s = p"

text \<open>The line boundaries of \<open>str.splitlines\<close> among the code points below 256.\<close>

definition is_linebreak :: "char \<Rightarrow> bool" where
  "is_linebreak c \<longleftrightarrow> c \<in> set [CHR 0x0A, CHR 0x0B, CHR 0x0C, CHR 0x0D,
                                CHR 0x1C, CHR 0x1D, CHR 0x1E, CHR 0x85]"

text \<open>\<open>str.splitlines\<close>: \<open>cur\<close> is the current line, reversed; CR LF is one break.\<close>

fun splitlines_from :: "string \<Rightarrow> string \<Rightarrow> string list" where
  "splitlines_from cur [] = (if cur = [] then [] else [rev cur])"
| "splitlines_from cur (c # cs) =
     (if c = CHR 0x0D then
        (case cs of
           [] \<Rightarrow> [rev cur]
         | d # ds \<Rightarrow>
             if d = CHR 0x0A then rev cur # splitlines_from [] ds
             else rev cur # splitlines_from [] (d # ds))
      else if is_linebreak c then rev cur # splitlines_from [] cs
      else splitlines_from (c # cur) cs)"

definition splitlines :: "string \<Rightarrow> string list" where
  "splitlines s = splitlines_from [] s"

text \<open>\<open>line.split(":", 1)[1]\<close>: the text after the first colon; IndexError without one.\<close>

definition split_colon_1 :: "string \<Rightarrow> error + string" where
  "split_colon_1 line =
     (case dropWhile (\<lambda>c. c \<noteq> CHR '':'') line of
        [] \<Rightarrow> Inl IndexError
      | _ # rest \<Rightarrow> Inr rest)"

subsection \<open>Documents, responses and the environment\<close>

text \<open>The tree that \<open>BeautifulSoup(resp.text, "lxml")\<close> builds: tags with attributes
  and children, and the text nodes that \<open>get_text\<close> reads (comments and the content of
  script and style tags, which it skips, are not part of the tree). Tag names are in
  lower case, as the parser delivers them, and an attribute name occurs once.\<close>

datatype node =
    Element string "(string \<times> string) list" "node list"
  | Text string

text \<open>
  A \<open>requests.Response\<close>: the status code, \<open>resp.text\<close>, what \<open>resp.json()\<close>
  returns or raises, and the document \<open>BeautifulSoup\<close> parses from the text.
\<close>

record response =
  status_code :: int
  resp_text :: string
  resp_json :: "error + pyval"
  resp_soup :: node

datatype outcome = Response response | Raise request_error

text \<open>
  A Python \<open>float\<close>: \<open>Float m e\<close> is the number \<open>m * 2 ^ e\<close> (every finite
  double is one), next to the two infinities and NaN. Comparison is exact and false
  whenever NaN takes part; \<open>bool(x)\<close> is false for zero only; \<open>max(a, b)\<close> is
  \<open>b\<close> when \<open>b > a\<close> and \<open>a\<close> otherwise.
\<close>

datatype pyfloat = Float int int | PosInf | NegInf | NaN

fun float_lt :: "pyfloat \<Rightarrow> pyfloat \<Rightarrow> bool" where
  "float_lt NaN y = False"
| "float_lt x NaN = False"
| "float_lt PosInf y = False"
| "float_lt x NegInf = False"
| "float_lt NegInf y = True"
| "float_lt x PosInf = True"
| "float_lt (Float m1 e1) (Float m2 e2) =
     (m1 * 2 ^ nat (e1 - min e1 e2) < m2 * 2 ^ nat (e2 - min e1 e2))"

definition py_max :: "pyfloat \<Rightarrow> pyfloat \<Rightarrow> pyfloat" where
  "py_max a b = (if float_lt a b then b else a)"

fun float_truthy :: "pyfloat \<Rightarrow> bool" where
  "float_truthy (Float m e) = (m \<noteq> 0)"
| "float_truthy x = True"

text \<open>What \<open>time.sleep\<close> can raise instead of sleeping.\<close>

datatype sleep_error = SleepValueError | SleepOverflowError

fun sleep_exception :: "sleep_error \<Rightarrow> error" where
  "sleep_exception SleepValueError = ValueError"
| "sleep_exception SleepOverflowError = OverflowError"

record parsed_url =
  scheme :: string
  netloc :: string
  path :: string

text \<open>
  \<open>http_get n url\<close> is what the \<open>n\<close>-th GET of the run (counted from 0) does when it
  is sent to \<open>url\<close>; \<open>session.get\<close> and \<open>requests.get\<close> both use it.
  \<open>urlparse\<close> and \<open>urljoin\<close> are \<open>urllib.parse\<close>'s; both can raise ValueError.
  \<open>time_sleep x\<close> is what \<open>time.sleep(x)\<close> does: it sleeps (\<open>None\<close>) or raises.
  \<open>uniform n a b\<close> is the value that \<open>random.uniform(a, b)\<close> draws before the
  \<open>n\<close>-th GET. \<open>float_pow x k\<close> is \<open>x ** k\<close> for a float \<open>x\<close> and an integer
  \<open>k \<ge> 0\<close>, \<open>None\<close> when it raises OverflowError.
\<close>

record env =
  urlparse :: "string \<Rightarrow> error + parsed_url"
  urljoin :: "string \<Rightarrow> string \<Rightarrow> error + string"
  http_get :: "nat \<Rightarrow> string \<Rightarrow> outcome"
  time_sleep :: "pyfloat \<Rightarrow> sleep_error option"
  uniform :: "nat \<Rightarrow> pyfloat \<Rightarrow> pyfloat \<Rightarrow> pyfloat"
  float_pow :: "pyfloat \<Rightarrow> nat \<Rightarrow> pyfloat option"

subsection \<open>\<open>Fetcher\<close>\<close>

text \<open>The options that the constructor stores (lines 51 to 55), the delays and the
  factor being floats as annotated; the session and its headers act through the outcome
  of a request.\<close>

record fetcher =
  timeout :: int
  min_delay :: pyfloat
  max_delay :: pyfloat
  max_retries :: int
  backoff_factor :: pyfloat

text \<open>\<open>_sleep_jitter\<close> (line 58), before the request number \<open>clock\<close>.\<close>

definition sleep_jitter :: "env \<Rightarrow> fetcher \<Rightarrow> nat \<Rightarrow> sleep_error option" where
  "sleep_jitter e f clock = time_sleep e (uniform e clock (min_delay f) (max_delay f))"

text \<open>\<open>Response.raise_for_status\<close>: HTTPError for a 4xx or 5xx status, else nothing.\<close>

definition raise_for_status :: "response \<Rightarrow> request_error + unit" where
  "raise_for_status resp =
     (if 400 \<le> status_code resp \<and> status_code resp < 600
      then Inl (HTTPError (status_code resp)) else Inr ())"

text \<open>The body of the \<open>try\<close> (lines 68 to 73), for the request number \<open>clock\<close>.\<close>

definition try_request :: "env \<Rightarrow> string \<Rightarrow> nat \<Rightarrow> request_error + response" where
  "try_request e url clock =
     (case http_get e clock url of
        Raise err \<Rightarrow> Inl err
      | Response resp \<Rightarrow>
          if status_code resp \<in> set [429, 500, 502, 503, 504]
          then Inl (HTTPError (status_code resp))
          else (case raise_for_status resp of
                  Inl err \<Rightarrow> Inl err
                | Inr _ \<Rightarrow> Inr resp))"

text \<open>The \<open>except\<close> clause of line 74.\<close>

fun caught :: "request_error \<Rightarrow> bool" where
  "caught Timeout = True"
| "caught ConnectionError = True"
| "caught (HTTPError _) = True"
| "caught OtherRequestException = False"

text \<open>
  The \<open>for attempt in range(1, max_retries + 1)\<close> loop over the attempts that remain,
  with the variable \<open>delay\<close>; the result comes with the number of requests sent so
  far. What \<open>time.sleep\<close> raises on line 64 or in \<open>_sleep_jitter\<close> on line 65,
  before the \<open>try\<close>, and what the power of line 77 raises inside the handler, leaves
  \<open>get\<close>. The exponent \<open>attempt - 1\<close> is never negative, as the attempts start at
  1. Falling out of the loop reaches line 78.
\<close>

fun get_attempts :: "env \<Rightarrow> fetcher \<Rightarrow> string \<Rightarrow> int list \<Rightarrow> pyfloat \<Rightarrow> nat \<Rightarrow> (error + response) \<times> nat" where
  "get_attempts e f url [] delay clock = (Inl RuntimeError_Unreachable, clock)"
| "get_attempts e f url (attempt # rest) delay clock =
     (case (if float_truthy delay then time_sleep e delay else None) of
        Some serr \<Rightarrow> (Inl (sleep_exception serr), clock)
      | None \<Rightarrow>
     (case sleep_jitter e f clock of
        Some serr \<Rightarrow> (Inl (sleep_exception serr), clock)
      | None \<Rightarrow>
     (case try_request e url clock of
        Inr resp \<Rightarrow> (Inr resp, Suc clock)
      | Inl err \<Rightarrow>
          if caught err then
            (if attempt = max_retries f then (Inl (RequestError err), Suc clock)
             else
               (case float_pow e (backoff_factor f) (nat (attempt - 1)) of
                  None \<Rightarrow> (Inl OverflowError, Suc clock)
                | Some p \<Rightarrow>
                    get_attempts e f url rest (py_max (Float 1 (- 1)) p) (Suc clock)))
          else (Inl (RequestError err), Suc clock))))"

text \<open>\<open>get\<close> starts with \<open>delay = 0.0\<close> (line 61).\<close>

definition get :: "env \<Rightarrow> fetcher \<Rightarrow> string \<Rightarrow> nat \<Rightarrow> (error + response) \<times> nat" where
  "get e f url clock = get_attempts e f url [1..max_retries f] (Float 0 0) clock"

subsection \<open>\<open>robots_allows\<close>\<close>

text \<open>
  The loop over the lines of robots.txt (lines 100 to 109), with the two variables it
  updates, \<open>ua_block\<close> and \<open>disallows\<close>.
\<close>

fun robots_scan :: "string \<Rightarrow> string list \<Rightarrow> bool \<Rightarrow> string list \<Rightarrow> error + string list" where
  "robots_scan user_agent [] ua_block disallows = Inr disallows"
| "robots_scan user_agent (raw # lines) ua_block disallows =
     (let line = strip raw in
      if line = [] \<or> startswith line ''#'' then
        robots_scan user_agent lines ua_block disallows
      else if startswith (lower line) ''user-agent:'' then
        (case split_colon_1 line of
           Inl err \<Rightarrow> Inl err
         | Inr v \<Rightarrow>
             robots_scan user_agent lines
               (strip v = [] \<or> lower (strip v) = lower user_agent) disallows)
      else if ua_block \<and> startswith (lower line) ''disallow:'' then
        (case split_colon_1 line of
           Inl err \<Rightarrow> Inl err
         | Inr v \<Rightarrow> robots_scan user_agent lines ua_block (disallows @ [strip v]))
      else robots_scan user_agent lines ua_block disallows)"

text \<open>The loop over \<open>disallows\<close> (lines 112 to 117).\<close>

fun path_allowed :: "string \<Rightarrow> string list \<Rightarrow> bool" where
  "path_allowed p [] = True"
| "path_allowed p (d # ds) =
     (if d = [] then path_allowed p ds
      else if startswith p d then False
      else path_allowed p ds)"

definition robots_url :: "parsed_url \<Rightarrow> string" where
  "robots_url parsed = scheme parsed @ ''://'' @ netloc parsed @ ''/robots.txt''"

text \<open>The body of the \<open>try\<close> (lines 94 to 117); the request is number \<open>clock\<close>.\<close>

definition robots_try :: "env \<Rightarrow> parsed_url \<Rightarrow> string \<Rightarrow> nat \<Rightarrow> error + bool" where
  "robots_try e parsed user_agent clock =
     (case http_get e clock (robots_url parsed) of
        Raise err \<Rightarrow> Inl (RequestError err)
      | Response r \<Rightarrow>
          if status_code r \<noteq> 200 then Inr True
          else (case robots_scan user_agent (splitlines (resp_text r)) False [] of
                  Inl err \<Rightarrow> Inl err
                | Inr disallows \<Rightarrow>
                    Inr (path_allowed (if path parsed = [] then ''/'' else path parsed)
                           disallows)))"

text \<open>
  \<open>urlparse\<close> is called before the \<open>try\<close> (line 91), so what it raises reaches the
  caller; \<open>except Exception\<close> turns everything raised inside the \<open>try\<close> into True.
\<close>

definition robots_allows :: "env \<Rightarrow> string \<Rightarrow> string \<Rightarrow> nat \<Rightarrow> (error + bool) \<times> nat" where
  "robots_allows e url user_agent clock =
     (case urlparse e url of
        Inl err \<Rightarrow> (Inl err, clock)
      | Inr parsed \<Rightarrow>
          (case robots_try e parsed user_agent clock of
             Inl _ \<Rightarrow> (Inr True, Suc clock)
           | Inr b \<Rightarrow> (Inr b, Suc clock)))"

subsection \<open>\<open>parse_example_json\<close>\<close>

text \<open>\<open>x.get(key, default)\<close>: only a dict has the method.\<close>

fun py_get :: "pyval \<Rightarrow> string \<Rightarrow> pyval \<Rightarrow> error + pyval" where
  "py_get (PDict kvs) k dflt = Inr (case map_of kvs k of Some v \<Rightarrow> v | None \<Rightarrow> dflt)"
| "py_get _ k dflt = Inl AttributeError"

text \<open>\<open>for it in items\<close>: a list gives its elements, a dict its keys, a string its
  characters; nothing else is iterable.\<close>

fun py_iter :: "pyval \<Rightarrow> error + pyval list" where
  "py_iter (PList xs) = Inr xs"
| "py_iter (PDict kvs) = Inr (map (\<lambda>kv. PStr (fst kv)) kvs)"
| "py_iter (PStr s) = Inr (map (\<lambda>c. PStr [c]) s)"
| "py_iter _ = Inl TypeError"

fun isinstance_list :: "pyval \<Rightarrow> bool" where
  "isinstance_list (PList _) = True"
| "isinstance_list _ = False"

text \<open>The loop of lines 180 to 186, with \<open>results\<close> as accumulator.\<close>

fun json_items :: "string \<Rightarrow> pyval list \<Rightarrow> row list \<Rightarrow> error + row list" where
  "json_items base_url [] results = Inr results"
| "json_items base_url (it # its) results =
     (case py_get it ''id'' PNone of
        Inl err \<Rightarrow> Inl err
      | Inr i \<Rightarrow>
     (case py_get it ''name'' PNone of
        Inl err \<Rightarrow> Inl err
      | Inr n \<Rightarrow>
     (case py_get it ''value'' PNone of
        Inl err \<Rightarrow> Inl err
      | Inr v \<Rightarrow>
          json_items base_url its
            (results @ [ [(''id'', i), (''name'', n), (''value'', v),
                         (''source'', PStr base_url)] ]))))"

definition parse_example_json :: "response \<Rightarrow> string \<Rightarrow> error + row list" where
  "parse_example_json resp base_url =
     (case resp_json resp of
        Inl err \<Rightarrow> Inl err
      | Inr data \<Rightarrow>
          (case py_get data ''items'' (if isinstance_list data then data else PList []) of
             Inl err \<Rightarrow> Inl err
           | Inr items \<Rightarrow>
               (case py_iter items of
                  Inl err \<Rightarrow> Inl err
                | Inr its \<Rightarrow> json_items base_url its [])))"

subsection \<open>\<open>parse_example_html\<close>\<close>

text \<open>
  The selectors the parser uses are lists of compound selectors, each an optional tag
  name and an optional class. \<open>select\<close> returns the matching descendants in document
  order, \<open>select_one\<close> the first of them.
\<close>

datatype selector = Sel "string option" "string option"

text \<open>\<open>str.split()\<close>: the maximal runs of non-whitespace; \<open>cur\<close> is reversed.\<close>

fun split_ws_from :: "string \<Rightarrow> string \<Rightarrow> string list" where
  "split_ws_from cur [] = (if cur = [] then [] else [rev cur])"
| "split_ws_from cur (c # cs) =
     (if py_isspace c then
        (if cur = [] then split_ws_from [] cs else rev cur # split_ws_from [] cs)
      else split_ws_from (c # cur) cs)"

fun attr :: "node \<Rightarrow> string \<Rightarrow> string option" where
  "attr (Element tg attrs children) k = map_of attrs k"
| "attr (Text s) k = None"

fun matches :: "selector \<Rightarrow> node \<Rightarrow> bool" where
  "matches (Sel tg cl) (Element t attrs children) =
     ((case tg of None \<Rightarrow> True | Some x \<Rightarrow> x = t) \<and>
      (case cl of
         None \<Rightarrow> True
       | Some c \<Rightarrow>
           (case map_of attrs ''class'' of
              None \<Rightarrow> False
            | Some v \<Rightarrow> List.member (split_ws_from [] v) c)))"
| "matches (Sel tg cl) (Text s) = False"

fun descendants :: "node \<Rightarrow> node list" where
  "descendants (Text s) = []"
| "descendants (Element t attrs children) =
     concat (map (\<lambda>c. c # descendants c) children)"

definition select :: "selector list \<Rightarrow> node \<Rightarrow> node list" where
  "select sels n = filter (\<lambda>d. list_ex (\<lambda>s. matches s d) sels) (descendants n)"

definition select_one :: "selector list \<Rightarrow> node \<Rightarrow> node option" where
  "select_one sels n = (case select sels n of [] \<Rightarrow> None | d # _ \<Rightarrow> Some d)"

text \<open>\<open>get_text(strip=True)\<close>: the text nodes below the element, each stripped, the
  empty ones dropped, joined without separator.\<close>

fun strings_of :: "node \<Rightarrow> string list" where
  "strings_of (Text s) = [s]"
| "strings_of (Element t attrs children) = concat (map strings_of children)"

definition get_text_strip :: "node \<Rightarrow> string" where
  "get_text_strip n = concat (filter (\<lambda>s. s \<noteq> []) (map strip (strings_of n)))"

definition card_selector :: "selector list" where
  "card_selector = [Sel None (Some ''card''), Sel None (Some ''item''), Sel (Some ''article'') None]"

definition title_selector :: "selector list" where
  "title_selector = [Sel (Some ''h2'') (Some ''title''), Sel (Some ''h2'') None, Sel None (Some ''title'')]"

definition link_selector :: "selector list" where
  "link_selector = [Sel (Some ''a'') (Some ''detail-link''), Sel (Some ''a'') None]"

definition price_selector :: "selector list" where
  "price_selector = [Sel None (Some ''price''), Sel None (Some ''amount'')]"

text \<open>Truth value of an optional string (\<open>None\<close> and \<open>""\<close> are false), and the
  value stored in a row.\<close>

fun truthy :: "string option \<Rightarrow> bool" where
  "truthy None = False"
| "truthy (Some s) = (s \<noteq> [])"

fun str_or_none :: "string option \<Rightarrow> pyval" where
  "str_or_none None = PNone"
| "str_or_none (Some s) = PStr s"

text \<open>Line 143, line 145: the text of the element \<open>select_one\<close> found, else None.\<close>

definition card_title :: "node \<Rightarrow> string option" where
  "card_title card_el = map_option get_text_strip (select_one title_selector card_el)"

definition card_price :: "node \<Rightarrow> string option" where
  "card_price card_el = map_option get_text_strip (select_one price_selector card_el)"

text \<open>Line 144: the link resolved against \<open>base_url\<close> when a link element was found
  and its \<open>href\<close> is present and not empty, else None.\<close>

definition card_href :: "env \<Rightarrow> string \<Rightarrow> node \<Rightarrow> error + string option" where
  "card_href e base_url card_el =
     (case select_one link_selector card_el of
        None \<Rightarrow> Inr None
      | Some link_el \<Rightarrow>
          (case attr link_el ''href'' of
             None \<Rightarrow> Inr None
           | Some h \<Rightarrow>
               if h = [] then Inr None
               else (case urljoin e base_url h of
                       Inl err \<Rightarrow> Inl err
                     | Inr u \<Rightarrow> Inr (Some u))))"

text \<open>The loop over the cards (lines 138 to 153), with \<open>results\<close> as accumulator.\<close>

fun html_cards :: "env \<Rightarrow> string \<Rightarrow> node list \<Rightarrow> row list \<Rightarrow> error + row list" where
  "html_cards e base_url [] results = Inr results"
| "html_cards e base_url (card_el # cards) results =
     (case card_href e base_url card_el of
        Inl err \<Rightarrow> Inl err
      | Inr href \<Rightarrow>
          if truthy (card_title card_el) \<or> truthy href \<or> truthy (card_price card_el) then
            html_cards e base_url cards
              (results @ [ [(''title'', str_or_none (card_title card_el)),
                           (''url'', str_or_none href),
                           (''price'', str_or_none (card_price card_el)),
                           (''source'', PStr base_url)] ])
          else html_cards e base_url cards results)"

definition parse_example_html :: "env \<Rightarrow> response \<Rightarrow> string \<Rightarrow> error + row list" where
  "parse_example_html e resp base_url =
     html_cards e base_url (select card_selector (resp_soup resp)) []"

subsection \<open>\<open>mine_target\<close>\<close>

record target =
  name :: string
  mode :: string
  start_urls :: "string list"
  parser :: "response \<Rightarrow> string \<Rightarrow> error + row list"
  discover_next_urls :: "(response \<Rightarrow> string \<Rightarrow> error + string list) option"

text \<open>
  The variables of the loop (\<open>collected\<close>, \<open>seen_urls\<close>, \<open>queue\<close>), the number of
  requests sent so far, and three logs that the code does not keep and that only record
  what it did: \<open>marked\<close>, the URLs in the order of \<open>seen_urls.add\<close>; \<open>fetched\<close>, the
  arguments of the calls of \<open>fetcher.get\<close>; \<open>skipped\<close>, the URLs skipped on line 215.
\<close>

record crawl =
  collected :: "row list"
  seen_urls :: "string fset"
  queue :: "string list"
  clock :: nat
  marked :: "string list"
  fetched :: "string list"
  skipped :: "string list"

datatype step = Next crawl | Abort error crawl

text \<open>
  One run of the loop body (lines 208 to 228), entered with a non-empty queue.
  \<open>robots_allows\<close> is only called when \<open>respect_robots\<close> holds, with its default
  user agent \<open>""\<close>. Whatever \<open>robots_allows\<close>, \<open>fetcher.get\<close>, \<open>urlparse\<close>, the
  parser or the discovery function raises leaves the loop: nothing catches it.
\<close>

definition loop_body :: "env \<Rightarrow> fetcher \<Rightarrow> target \<Rightarrow> bool \<Rightarrow> crawl \<Rightarrow> step" where
  "loop_body e f t respect_robots s =
     (case queue s of
        [] \<Rightarrow> Abort IndexError s
      | url # rest \<Rightarrow>
          if url |\<in>| seen_urls s then Next (s\<lparr>queue := rest\<rparr>)
          else
            let s1 = s\<lparr>queue := rest, seen_urls := finsert url (seen_urls s),
                       marked := marked s @ [url]\<rparr>
            in
            (case (if respect_robots then robots_allows e url [] (clock s1)
                   else (Inr True, clock s1)) of
               (Inl err, c) \<Rightarrow> Abort err (s1\<lparr>clock := c\<rparr>)
             | (Inr allowed, c) \<Rightarrow>
                 if \<not> allowed then Next (s1\<lparr>clock := c, skipped := skipped s1 @ [url]\<rparr>)
                 else
                   let s2 = s1\<lparr>fetched := fetched s1 @ [url]\<rparr> in
                   (case get e f url c of
                      (Inl err, c') \<Rightarrow> Abort err (s2\<lparr>clock := c'\<rparr>)
                    | (Inr resp, c') \<Rightarrow>
                        (case urlparse e url of
                           Inl err \<Rightarrow> Abort err (s2\<lparr>clock := c'\<rparr>)
                         | Inr parsed \<Rightarrow>
                             let base_url = scheme parsed @ ''://'' @ netloc parsed in
                             (case parser t resp base_url of
                                Inl err \<Rightarrow> Abort err (s2\<lparr>clock := c'\<rparr>)
                              | Inr items \<Rightarrow>
                                  let s3 = s2\<lparr>clock := c', collected := collected s2 @ items\<rparr> in
                                  (case discover_next_urls t of
                                     None \<Rightarrow> Next s3
                                   | Some discover \<Rightarrow>
                                       (case discover resp base_url of
                                          Inl err \<Rightarrow> Abort err s3
                                        | Inr next_urls \<Rightarrow>
                                            Next (s3\<lparr>queue := queue s3 @
                                                    filter (\<lambda>nu. nu |\<notin>| seen_urls s3) next_urls\<rparr>))))))))"

text \<open>
  The \<open>while\<close> loop of line 207. The result is the exception that left the loop, if
  any, and the last state.
\<close>

function mine_loop :: "env \<Rightarrow> fetcher \<Rightarrow> target \<Rightarrow> int \<Rightarrow> bool \<Rightarrow> crawl \<Rightarrow> error option \<times> crawl" where
  "mine_loop e f t max_pages respect_robots s =
     (if queue s \<noteq> [] \<and> int (fcard (seen_urls s)) < max_pages then
        (case loop_body e f t respect_robots s of
           Next s' \<Rightarrow> mine_loop e f t max_pages respect_robots s'
         | Abort err s' \<Rightarrow> (Some err, s'))
      else (None, s))"
  by pat_completeness auto
termination
proof (relation "measures [\<lambda>(e, f, t, max_pages, respect_robots, s). nat (max_pages - int (fcard (seen_urls s))),
                           \<lambda>(e, f, t, max_pages, respect_robots, s). length (queue s)]")
  show "wf (measures [\<lambda>(e, f, t, max_pages, respect_robots, s). nat (max_pages - int (fcard (seen_urls s))),
                      \<lambda>(e, f, t, max_pages, respect_robots, s). length (queue s)])"
    by simp
next
  fix e :: env and f :: fetcher and t :: target and max_pages :: int
    and respect_robots :: bool and s s' :: crawl
  assume guard: "queue s \<noteq> [] \<and> int (fcard (seen_urls s)) < max_pages"
    and step: "loop_body e f t respect_robots s = Next s'"
  from guard obtain url rest where q: "queue s = url # rest"
    by (cases "queue s") auto
  show "((e, f, t, max_pages, respect_robots, s'), (e, f, t, max_pages, respect_robots, s))
        \<in> measures [\<lambda>(e, f, t, max_pages, respect_robots, s). nat (max_pages - int (fcard (seen_urls s))),
                     \<lambda>(e, f, t, max_pages, respect_robots, s). length (queue s)]"
  proof (cases "url |\<in>| seen_urls s")
    case True
    with step q have "s' = s\<lparr>queue := rest\<rparr>"
      by (simp add: loop_body_def)
    with q show ?thesis by simp
  next
    case False
    with step q have "seen_urls s' = finsert url (seen_urls s)"
      by (auto simp: loop_body_def Let_def split: if_splits prod.splits sum.splits option.splits)
    with False have "fcard (seen_urls s') = Suc (fcard (seen_urls s))"
      by (simp add: fcard_finsert_disjoint)
    with guard show ?thesis by simp
  qed
qed

definition initial :: "target \<Rightarrow> nat \<Rightarrow> crawl" where
  "initial t clock0 =
     \<lparr>collected = [], seen_urls = {||}, queue = start_urls t, clock = clock0,
      marked = [], fetched = [], skipped = []\<rparr>"

text \<open>The run of \<open>mine_target\<close> with its last state, and what the caller gets: the
  collected rows, or the exception.\<close>

definition mine_run :: "env \<Rightarrow> fetcher \<Rightarrow> target \<Rightarrow> int \<Rightarrow> bool \<Rightarrow> nat \<Rightarrow> error option \<times> crawl" where
  "mine_run e f t max_pages respect_robots clock0 =
     mine_loop e f t max_pages respect_robots (initial t clock0)"

definition mine_target :: "env \<Rightarrow> fetcher \<Rightarrow> target \<Rightarrow> int \<Rightarrow> bool \<Rightarrow> nat \<Rightarrow> error + row list" where
  "mine_target e f t max_pages respect_robots clock0 =
     (case mine_run e f t max_pages respect_robots clock0 of
        (None, s) \<Rightarrow> Inr (collected s)
      | (Some err, s) \<Rightarrow> Inl err)"


subsection \<open>A concrete environment for examples\<close>

text \<open>
  \<open>urlparse_basic\<close> follows \<open>urllib.parse.urlsplit\<close> on a URL without parameters and
  without characters that the library strips first: the scheme is the text before the
  first colon when it is a letter followed by scheme characters, the network location
  follows \<open>//\<close> up to the first of \<open>/\<close>, \<open>?\<close> and \<open>#\<close>, and a location with one
  square bracket but not the other raises ValueError (``Invalid IPv6 URL'').
\<close>

definition is_alpha :: "char \<Rightarrow> bool" where
  "is_alpha c \<longleftrightarrow> c \<in> set ''abcdefghijklmnopqrstuvwxyzABCDEFGHIJKLMNOPQRSTUVWXYZ''"

definition is_scheme_char :: "char \<Rightarrow> bool" where
  "is_scheme_char c \<longleftrightarrow> is_alpha c \<or> c \<in> set ''0123456789+-.''"

definition split_scheme :: "string \<Rightarrow> string \<times> string" where
  "split_scheme url =
     (let pre = takeWhile (\<lambda>c. c \<noteq> CHR '':'') url in
      if length pre < length url \<and> pre \<noteq> [] \<and> is_alpha (hd pre) \<and> list_all is_scheme_char pre
      then (lower pre, drop (Suc (length pre)) url)
      else ([], url))"

definition is_netloc_end :: "char \<Rightarrow> bool" where
  "is_netloc_end c \<longleftrightarrow> c \<in> set ''/?#''"

definition urlparse_basic :: "string \<Rightarrow> error + parsed_url" where
  "urlparse_basic url =
     (case split_scheme url of
        (sch, rest) \<Rightarrow>
          let loc = (if startswith rest ''//''
                     then takeWhile (\<lambda>c. \<not> is_netloc_end c) (drop 2 rest) else []);
              rest' = (if startswith rest ''//''
                       then dropWhile (\<lambda>c. \<not> is_netloc_end c) (drop 2 rest) else rest)
          in
          if (CHR ''['' \<in> set loc \<and> CHR '']'' \<notin> set loc) \<or>
             (CHR '']'' \<in> set loc \<and> CHR ''['' \<notin> set loc)
          then Inl ValueError
          else Inr \<lparr>scheme = sch, netloc = loc,
                    path = takeWhile (\<lambda>c. c \<notin> set ''?#'') rest'\<rparr>)"

text \<open>
  \<open>time.sleep\<close> turns the delay into a signed 64-bit number of nanoseconds, which
  raises OverflowError when it does not fit, and then raises ValueError for a negative
  delay; NaN raises ValueError. (Rounding, which matters only next to the bound, is left
  out.)
\<close>

fun time_sleep_basic :: "pyfloat \<Rightarrow> sleep_error option" where
  "time_sleep_basic NaN = Some SleepValueError"
| "time_sleep_basic PosInf = Some SleepOverflowError"
| "time_sleep_basic NegInf = Some SleepOverflowError"
| "time_sleep_basic (Float m e) =
     (if 2 ^ 63 * 2 ^ nat (- e) \<le> \<bar>m\<bar> * 2 ^ nat e * 10 ^ 9 then Some SleepOverflowError
      else if m < 0 then Some SleepValueError
      else None)"

text \<open>
  \<open>random.uniform(a, b)\<close> is \<open>a + (b - a) * random()\<close>: for \<open>a = b\<close> it is
  \<open>a\<close>, and otherwise \<open>a\<close> is the draw for \<open>random() = 0.0\<close>.
\<close>

definition uniform_basic :: "nat \<Rightarrow> pyfloat \<Rightarrow> pyfloat \<Rightarrow> pyfloat" where
  "uniform_basic n a b = a"

text \<open>
  The power of a float with an exponent \<open>k \<ge> 0\<close>: 1.0 for \<open>k = 0\<close>, and
  OverflowError when a finite base gives a result of magnitude \<open>2 ^ 1024\<close> or more.
  (The product is kept exact, where the machine rounds it to 53 bits or to zero.)
\<close>

fun float_pow_basic :: "pyfloat \<Rightarrow> nat \<Rightarrow> pyfloat option" where
  "float_pow_basic x 0 = Some (Float 1 0)"
| "float_pow_basic NaN k = Some NaN"
| "float_pow_basic PosInf k = Some PosInf"
| "float_pow_basic NegInf k = Some (if even k then PosInf else NegInf)"
| "float_pow_basic (Float m e) k =
     (if 2 ^ 1024 * 2 ^ nat (- e * int k) \<le> \<bar>m\<bar> ^ k * 2 ^ nat (e * int k)
      then None else Some (Float (m ^ k) (e * int k)))"

text \<open>The environment of the examples: \<open>urljoin\<close> appends the reference to the base,
  which is what the library does for a base \<open>scheme://host\<close> and an absolute path.\<close>

definition basic_env :: "(nat \<Rightarrow> string \<Rightarrow> outcome) \<Rightarrow> env" where
  "basic_env net =
     \<lparr>urlparse = urlparse_basic, urljoin = (\<lambda>b u. Inr (b @ u)), http_get = net,
      time_sleep = time_sleep_basic, uniform = uniform_basic, float_pow = float_pow_basic\<rparr>"

text \<open>
  \<open>Fetcher(max_retries=n)\<close> with the defaults of the constructor: a timeout of 30,
  delays between 0.75 and 1.75, and the backoff factor 1.7 (as the double that Python
  reads).
\<close>

definition default_fetcher :: "int \<Rightarrow> fetcher" where
  "default_fetcher n =
     \<lparr>timeout = 30, min_delay = Float 3 (- 2), max_delay = Float 7 (- 2), max_retries = n,
      backoff_factor = Float 7656119366529843 (- 52)\<rparr>"


definition empty_doc :: node where
  "empty_doc = Element ''[document]'' [] []"

definition plain_response :: "int \<Rightarrow> string \<Rightarrow> response" where
  "plain_response st body =
     \<lparr>status_code = st, resp_text = body, resp_json = Inl JSONDecodeError, resp_soup = empty_doc\<rparr>"

definition json_response :: "pyval \<Rightarrow> response" where
  "json_response v =
     \<lparr>status_code = 200, resp_text = [], resp_json = Inr v, resp_soup = empty_doc\<rparr>"

definition html_response :: "node list \<Rightarrow> response" where
  "html_response cards =
     \<lparr>status_code = 200, resp_text = [], resp_json = Inl JSONDecodeError,
      resp_soup = Element ''[document]'' [] [Element ''html'' [] [Element ''body'' [] cards] ]\<rparr>"

text \<open>A server that answers every request with status 404.\<close>

definition always_404 :: "nat \<Rightarrow> string \<Rightarrow> outcome" where
  "always_404 n url = Response (plain_response 404 [])"

text \<open>A host whose robots.txt names the agent \<open>*\<close>.\<close>

definition star_robots :: string where
  "star_robots = ''User-agent: *'' @ [CHR 0x0A] @ ''Disallow: /private''"

definition star_site :: "nat \<Rightarrow> string \<Rightarrow> outcome" where
  "star_site n url =
     (if url = ''https://h/robots.txt'' then Response (plain_response 200 star_robots)
      else Raise ConnectionError)"

text \<open>
  A host whose robots.txt has a blank user agent; \<open>/a\<close> is a JSON page with one item,
  every other page is missing. Discovery on a JSON page yields a denied link and the
  same missing page twice.
\<close>

definition site_robots :: string where
  "site_robots = ''User-agent:'' @ [CHR 0x0A] @ ''Disallow: /private''"

definition demo_site :: "nat \<Rightarrow> string \<Rightarrow> outcome" where
  "demo_site n url =
     (if url = ''https://h/robots.txt'' then Response (plain_response 200 site_robots)
      else if url = ''https://h/a'' then
        Response (json_response
          (PDict [(''items'', PList [PDict [(''id'', PInt 1), (''name'', PStr ''a'')] ])]))
      else Response (plain_response 404 []))"

definition demo_discover :: "response \<Rightarrow> string \<Rightarrow> error + string list" where
  "demo_discover resp base_url =
     (case resp_json resp of
        Inr v \<Rightarrow> Inr [base_url @ ''/private/x'', base_url @ ''/b'', base_url @ ''/b'']
      | Inl _ \<Rightarrow> Inr [])"

definition demo_target :: target where
  "demo_target =
     \<lparr>name = ''demo'', mode = ''json'', start_urls = [''https://h/a'', ''https://h/a''],
      parser = parse_example_json, discover_next_urls = Some demo_discover\<rparr>"

definition private_target :: target where
  "private_target =
     \<lparr>name = ''private'', mode = ''json'',
      start_urls = [''https://h/private/x'', ''https://h/a''],
      parser = parse_example_json, discover_next_urls = None\<rparr>"

definition demo_fetcher :: fetcher where
  "demo_fetcher = default_fetcher 2"

text \<open>A host on which every page links to a page not seen before.\<close>

definition endless_site :: "nat \<Rightarrow> string \<Rightarrow> outcome" where
  "endless_site n url = Response (plain_response 200 url)"

definition endless_discover :: "response \<Rightarrow> string \<Rightarrow> error + string list" where
  "endless_discover resp base_url = Inr [resp_text resp @ ''/n'']"

definition endless_target :: target where
  "endless_target =
     \<lparr>name = ''endless'', mode = ''html'', start_urls = [''https://h''],
      parser = (\<lambda>resp base_url. Inr []), discover_next_urls = Some endless_discover\<rparr>"

text \<open>Cards: a title element that holds only white space (a space and a no-break
  space), a title with text, no target element at all, and all three elements.\<close>

definition blank_title_card :: node where
  "blank_title_card =
     Element ''div'' [(''class'', ''card'')]
       [Element ''h2'' [(''class'', ''title'')] [Text [CHR 0x20, CHR 0xA0] ] ]"

definition title_only_card :: node where
  "title_only_card =
     Element ''div'' [(''class'', ''card'')]
       [Element ''h2'' [(''class'', ''title'')] [Text '' Lamp ''] ]"

definition bare_card :: node where
  "bare_card = Element ''div'' [(''class'', ''card'')] [Element ''p'' [] [Text ''nothing''] ]"

definition full_card :: node where
  "full_card =
     Element ''article'' []
       [Element ''h2'' [] [Text ''Desk''],
        Element ''a'' [(''class'', ''detail-link''), (''href'', ''/desk'')] [Text ''more''],
        Element ''span'' [(''class'', ''big price'')] [Text ''12''] ]"

subsection \<open>The invariant of the crawl\<close>

text \<open>
  \<open>marked\<close> lists \<open>seen_urls\<close> without repetition, and the fetched and the skipped
  URLs are marked ones, each listed once and never in both logs.
\<close>

definition crawl_inv :: "crawl \<Rightarrow> bool" where
  "crawl_inv s \<longleftrightarrow>
     distinct (marked s) \<and> set (marked s) = fset (seen_urls s) \<and>
     distinct (fetched s @ skipped s) \<and>
     set (fetched s) \<union> set (skipped s) \<subseteq> set (marked s)"

section \<open>Properties of \<open>Fetcher.get\<close>\<close>


lemma upto_from_1_last: "1 \<le> (m::int) \<Longrightarrow> [1..m] \<noteq> [] \<and> last [1..m] = m"
  by (simp add: upto_rec2)

text \<open>While no sleep and no power raises and every attempt ends in an exception that
  line 74 catches, \<open>get\<close> uses all its attempts and raises the exception of the last
  one.\<close>

lemma get_attempts_all_caught:
  assumes "attempts \<noteq> []" "distinct attempts" "last attempts = max_retries f"
    and "\<forall>x. time_sleep e x = None" and "\<forall>x k. float_pow e x k \<noteq> None"
    and "\<forall>k < length attempts. \<exists>err. try_request e url (c + k) = Inl err \<and> caught err"
  shows "\<exists>err. get_attempts e f url attempts delay c
               = (Inl (RequestError err), c + length attempts)
            \<and> try_request e url (c + length attempts - 1) = Inl err"
  using assms
proof (induction attempts arbitrary: c delay)
  case Nil
  then show ?case by simp
next
  case (Cons a rest)
  from Cons.prems(6) obtain err where err: "try_request e url c = Inl err" "caught err"
    by force
  from Cons.prems(4) have quiet: "(if float_truthy delay then time_sleep e delay else None) = None"
    "sleep_jitter e f c = None"
    by (simp_all add: sleep_jitter_def)
  show ?case
  proof (cases "rest = []")
    case True
    with Cons.prems(3) err quiet show ?thesis by simp
  next
    case False
    with Cons.prems have l: "last rest = max_retries f" and d: "distinct rest"
      and na: "a \<noteq> max_retries f"
      using last_in_set[of rest] by auto
    from Cons.prems(5) have "float_pow e (backoff_factor f) (nat (a - 1)) \<noteq> None" by blast
    then obtain p where p: "float_pow e (backoff_factor f) (nat (a - 1)) = Some p"
      by blast
    have "\<forall>k < length rest. \<exists>err. try_request e url (Suc c + k) = Inl err \<and> caught err"
      using Cons.prems(6) by force
    from Cons.IH[OF False d l Cons.prems(4) Cons.prems(5) this, of "py_max (Float 1 (- 1)) p"]
      err na quiet p
    show ?thesis by simp
  qed
qed

lemma get_all_caught:
  assumes "1 \<le> max_retries f"
    and "\<forall>x. time_sleep e x = None" and "\<forall>x k. float_pow e x k \<noteq> None"
    and "\<forall>k < nat (max_retries f). \<exists>err. try_request e url (c + k) = Inl err \<and> caught err"
  shows "\<exists>err. get e f url c = (Inl (RequestError err), c + nat (max_retries f))
            \<and> try_request e url (c + nat (max_retries f) - 1) = Inl err"
proof -
  have "length [1..max_retries f] = nat (max_retries f)" by simp
  with get_attempts_all_caught[of "[1..max_retries f]" f e url c "Float 0 0"]
    upto_from_1_last[OF assms(1)] assms(2,3,4)
  show ?thesis by (simp add: get_def)
qed

text \<open>A 4xx or 5xx status, transient or not, is an HTTPError inside the \<open>try\<close>,
  and line 74 catches every HTTPError.\<close>

lemma try_request_http_error:
  "http_get e c url = Response resp \<Longrightarrow> 400 \<le> status_code resp \<Longrightarrow> status_code resp < 600
   \<Longrightarrow> try_request e url c = Inl (HTTPError (status_code resp)) \<and>
       caught (HTTPError (status_code resp))"
  by (simp add: try_request_def raise_for_status_def)

text \<open>A status below 400 or from 600 on is returned as it is.\<close>

lemma try_request_passes:
  "http_get e c url = Response resp \<Longrightarrow> status_code resp < 400 \<or> 600 \<le> status_code resp
   \<Longrightarrow> try_request e url c = Inr resp"
  by (auto simp add: try_request_def raise_for_status_def)

text \<open>So a server that keeps answering with one 4xx or 5xx status, whichever it is,
  gets \<open>max_retries\<close> requests before the HTTPError reaches the caller.\<close>

lemma get_retries_every_http_error:
  assumes "1 \<le> max_retries f" and "400 \<le> st" and "st < 600"
    and "\<forall>x. time_sleep e x = None" and "\<forall>x k. float_pow e x k \<noteq> None"
    and "\<forall>k < nat (max_retries f). \<exists>resp. http_get e (c + k) url = Response resp \<and>
           status_code resp = st"
  shows "get e f url c = (Inl (RequestError (HTTPError st)), c + nat (max_retries f))"
proof -
  have each: "\<forall>k < nat (max_retries f). try_request e url (c + k) = Inl (HTTPError st)"
    using assms(2,3,6) try_request_http_error[of e _ url] by fastforce
  then have "\<forall>k < nat (max_retries f). \<exists>err. try_request e url (c + k) = Inl err \<and> caught err"
    by simp
  from get_all_caught[OF assms(1) assms(4) assms(5) this] obtain err
    where g: "get e f url c = (Inl (RequestError err), c + nat (max_retries f))"
      and l: "try_request e url (c + nat (max_retries f) - 1) = Inl err"
    by blast
  from assms(1) have "nat (max_retries f) - 1 < nat (max_retries f)" by simp
  with each have "try_request e url (c + (nat (max_retries f) - 1)) = Inl (HTTPError st)"
    by blast
  moreover from assms(1) have "c + nat (max_retries f) - 1 = c + (nat (max_retries f) - 1)"
    by simp
  ultimately have "err = HTTPError st" using l by simp
  with g show ?thesis by simp
qed

text \<open>
  Claim C1. \<open>Fetcher.get\<close> is to retry the statuses 429, 500, 502, 503, 504 and the
  transport errors up to \<open>max_retries\<close> attempts, and to raise at once, with no retry,
  for any other status that is an error, such as 404. The code sends the request
  \<open>max_retries\<close> times for status 404 as well: \<open>raise_for_status\<close> raises its
  HTTPError inside the \<open>try\<close>, where the \<open>except\<close> clause catches it like a
  transient one. With \<open>Fetcher(max_retries=4)\<close> and a server that always answers 404,
  four requests are sent before the HTTPError reaches the caller.
\<close>

theorem get_retries_status_404:
  "get (basic_env always_404) (default_fetcher 4) ''https://h/missing'' 0
     = (Inl (RequestError (HTTPError 404)), 4)"
  by code_simp




section \<open>Properties of \<open>robots_allows\<close>\<close>

lemma lower_char_colon: "lower_char c = CHR '':'' \<Longrightarrow> c = CHR '':''"
  by (simp add: lower_char_def upper_letters_def lower_letters_def
        split: option.splits if_splits)

lemma lower_char_not_hash: "lower_char c = CHR ''u'' \<Longrightarrow> c \<noteq> CHR ''#''"
  by (auto simp add: lower_char_def upper_letters_def lower_letters_def)

lemma colon_in_lower:
  assumes "CHR '':'' \<in> set (lower l)"
  shows "CHR '':'' \<in> set l"
proof -
  from assms obtain c where c: "c \<in> set l" "lower_char c = CHR '':''"
    by (auto simp: lower_def)
  from lower_char_colon[OF c(2)] c(1) show ?thesis by simp
qed

lemma startswith_set: "startswith s p \<Longrightarrow> set p \<subseteq> set s"
  unfolding startswith_def by (metis set_take_subset)

text \<open>Both places that split a line at the colon have checked a prefix that contains
  one, so the index 1 of line 105 and line 108 is always there.\<close>

lemma split_colon_1_ok:
  assumes "startswith (lower l) p" "CHR '':'' \<in> set p"
  shows "\<exists>v. split_colon_1 l = Inr v"
proof -
  from assms startswith_set have "CHR '':'' \<in> set (lower l)" by blast
  then have "CHR '':'' \<in> set l" by (rule colon_in_lower)
  then have "dropWhile (\<lambda>c. c \<noteq> CHR '':'') l \<noteq> []" by simp
  then show ?thesis
    by (cases "dropWhile (\<lambda>c. c \<noteq> CHR '':'') l") (auto simp: split_colon_1_def)
qed

text \<open>No text makes the loop over the lines raise.\<close>

lemma robots_scan_total: "\<exists>ds. robots_scan ua lines b ds0 = Inr ds"
proof (induction lines arbitrary: b ds0)
  case Nil
  then show ?case by simp
next
  case (Cons raw lines)
  have ua_ok: "startswith (lower (strip raw)) ''user-agent:'' \<Longrightarrow>
      \<exists>v. split_colon_1 (strip raw) = Inr v"
    by (rule split_colon_1_ok) auto
  have dis_ok: "startswith (lower (strip raw)) ''disallow:'' \<Longrightarrow>
      \<exists>v. split_colon_1 (strip raw) = Inr v"
    by (rule split_colon_1_ok) auto
  show ?case
    using Cons.IH ua_ok dis_ok by (auto simp: Let_def)
qed

lemma user_agent_not_comment:
  assumes "startswith (lower l) ''user-agent:''"
  shows "l \<noteq> [] \<and> \<not> startswith l ''#''"
proof (cases l)
  case Nil
  with assms show ?thesis by (simp add: startswith_def lower_def)
next
  case (Cons c cs)
  with assms have "lower_char c = CHR ''u''" by (simp add: startswith_def lower_def)
  then have "c \<noteq> CHR ''#''" by (rule lower_char_not_hash)
  with Cons show ?thesis by (simp add: startswith_def)
qed

text \<open>The rule of line 106: a line that starts with \<open>user-agent:\<close>, in any case,
  sets \<open>ua_block\<close> to true exactly when its value is blank or equals the queried
  agent up to case, and to false otherwise.\<close>

lemma robots_scan_user_agent:
  assumes "startswith (lower (strip raw)) ''user-agent:''"
  shows "\<exists>v. split_colon_1 (strip raw) = Inr v \<and>
           robots_scan ua (raw # lines) blk ds =
           robots_scan ua lines (strip v = [] \<or> lower (strip v) = lower ua) ds"
proof -
  from assms obtain v where v: "split_colon_1 (strip raw) = Inr v"
    using split_colon_1_ok[of "strip raw" "''user-agent:''"] by auto
  with assms user_agent_not_comment[OF assms] show ?thesis
    by (simp add: Let_def)
qed

text \<open>A caller that queries the agent \<open>*\<close> itself gets the results that the block
  \<open>User-agent: *\<close> is meant to give.\<close>

lemma robots_allows_star_agent:
  "robots_allows (basic_env star_site) ''https://h/private/x'' ''*'' 0 = (Inr False, 1) \<and>
   robots_allows (basic_env star_site) ''https://h/public'' ''*'' 0 = (Inr True, 1)"
  by code_simp

text \<open>
  Claim C2. With the robots.txt \<open>User-agent: *\<close>, \<open>Disallow: /private\<close> and the
  default user agent, \<open>robots_allows\<close> is to return false for
  \<open>https://h/private/x\<close> and true for \<open>https://h/public\<close>. The code returns true
  for both. Line 106 tests the value of the line against \<open>""\<close> and against the
  queried agent, never against \<open>*\<close>; the default agent is \<open>""\<close>, and line 213,
  the only call, passes none, so the block that addresses every crawler is never
  active: the loop over the lines records no path, and the denied page is allowed.
\<close>

theorem robots_allows_ignores_star_block:
  "splitlines star_robots = [''User-agent: *'', ''Disallow: /private''] \<and>
   robots_scan [] (splitlines star_robots) False [] = Inr [] \<and>
   robots_allows (basic_env star_site) ''https://h/private/x'' [] 0 = (Inr True, 1) \<and>
   robots_allows (basic_env star_site) ''https://h/public'' [] 0 = (Inr True, 1)"
  by code_simp

text \<open>
  Claim C6, as stated: \<open>robots_allows\<close> is never to raise, for every URL. The call
  of \<open>urlparse\<close> on line 91 stands before the \<open>try\<close>: for a URL whose network
  location has an unmatched square bracket it raises ValueError, and the caller gets it.
\<close>

theorem robots_allows_raises_counterexample:
  "robots_allows (basic_env star_site) ''http://['' [] 0 = (Inl ValueError, 0)"
  by code_simp

text \<open>
  Claim C6, amended. For every URL that \<open>urlparse\<close> accepts, \<open>robots_allows\<close>
  returns a truth value after one request and raises nothing, whatever the request does
  and whatever text it returns; the result is true when the request raises, when the
  status is not 200, and when anything else inside the \<open>try\<close> raises.
\<close>

theorem robots_allows_permissive:
  "urlparse e url = Inr parsed \<longrightarrow>
     (\<exists>b. robots_allows e url ua c = (Inr b, Suc c)) \<and>
     (\<forall>err. http_get e c (robots_url parsed) = Raise err \<longrightarrow>
            robots_allows e url ua c = (Inr True, Suc c)) \<and>
     (\<forall>r. http_get e c (robots_url parsed) = Response r \<and> status_code r \<noteq> 200 \<longrightarrow>
            robots_allows e url ua c = (Inr True, Suc c)) \<and>
     (\<forall>err. robots_try e parsed ua c = Inl err \<longrightarrow>
            robots_allows e url ua c = (Inr True, Suc c))"
  by (auto simp add: robots_allows_def robots_try_def split: sum.splits)

theorem robots_allows_permissive_witness:
  "urlparse (basic_env always_404) ''https://h/a''
     = Inr \<lparr>scheme = ''https'', netloc = ''h'', path = ''/a''\<rparr> \<and>
   http_get (basic_env always_404) 0 ''https://h/robots.txt'' = Response (plain_response 404 []) \<and>
   status_code (plain_response 404 []) \<noteq> 200 \<and>
   robots_allows (basic_env always_404) ''https://h/a'' [] 0 = (Inr True, 1) \<and>
   http_get (basic_env star_site) 0 ''https://h:1/robots.txt'' = Raise ConnectionError \<and>
   robots_allows (basic_env star_site) ''https://h:1/a'' [] 0 = (Inr True, 1)"
proof -
  have p1: "urlparse (basic_env always_404) ''https://h/a''
     = Inr \<lparr>scheme = ''https'', netloc = ''h'', path = ''/a''\<rparr>"
    by code_simp
  have u1: "robots_url \<lparr>scheme = ''https'', netloc = ''h'', path = ''/a''\<rparr> = ''https://h/robots.txt''"
    by code_simp
  have g1: "http_get (basic_env always_404) 0 ''https://h/robots.txt'' = Response (plain_response 404 [])"
    by (simp add: basic_env_def always_404_def)
  have s1: "status_code (plain_response 404 []) \<noteq> 200"
    by (simp add: plain_response_def)
  have p2: "urlparse (basic_env star_site) ''https://h:1/a''
     = Inr \<lparr>scheme = ''https'', netloc = ''h:1'', path = ''/a''\<rparr>"
    by code_simp
  have u2: "robots_url \<lparr>scheme = ''https'', netloc = ''h:1'', path = ''/a''\<rparr> = ''https://h:1/robots.txt''"
    by code_simp
  have g2: "http_get (basic_env star_site) 0 ''https://h:1/robots.txt'' = Raise ConnectionError"
    by (simp add: basic_env_def star_site_def)
  from robots_allows_permissive[of "basic_env always_404" "''https://h/a''" _ "[]" 0] p1 u1 g1 s1
  have "robots_allows (basic_env always_404) ''https://h/a'' [] 0 = (Inr True, 1)"
    by auto
  moreover
  from robots_allows_permissive[of "basic_env star_site" "''https://h:1/a''" _ "[]" 0] p2 u2 g2
  have "robots_allows (basic_env star_site) ''https://h:1/a'' [] 0 = (Inr True, 1)"
    by auto
  ultimately show ?thesis using p1 g1 s1 g2 by blast
qed

section \<open>Properties of the example parsers\<close>

text \<open>What \<open>parse_example_json\<close> does for an object: the rows of the items, and no
  row without the key \<open>items\<close>.\<close>

lemma parse_example_json_items:
  "parse_example_json
     (json_response (PDict [(''items'', PList [PDict [(''id'', PInt 1), (''name'', PStr ''a'')] ])]))
     ''https://h''
   = Inr [ [(''id'', PInt 1), (''name'', PStr ''a''), (''value'', PNone),
           (''source'', PStr ''https://h'')] ]"
  by (simp add: parse_example_json_def json_response_def)

lemma parse_example_json_other:
  "parse_example_json (json_response (PDict [(''other'', PInt 1)])) ''https://h'' = Inr []"
  by (simp add: parse_example_json_def json_response_def)

text \<open>Any body that is a list raises: the method \<open>get\<close> is looked up on the list
  before the default argument is of any use.\<close>

lemma parse_example_json_list:
  "resp_json resp = Inr (PList xs) \<Longrightarrow> parse_example_json resp base_url = Inl AttributeError"
  by (simp add: parse_example_json_def)

text \<open>
  Claim C3. The JSON extractor is to iterate the field \<open>items\<close> of an object, to
  iterate a body that is itself a list, and to return no record otherwise; the bare
  list with the one item of id 2 is to give one record. On that body the code raises
  AttributeError: line 178 calls \<open>data.get\<close> on the list, although its default
  argument \<open>data if isinstance(data, list) else []\<close> was written for this case.
\<close>

theorem parse_example_json_bare_list_raises:
  "parse_example_json (json_response (PList [PDict [(''id'', PInt 2)] ])) ''https://h''
     = Inl AttributeError"
  by (simp add: parse_example_json_def json_response_def)

text \<open>The rows that the loop over the cards adds: one for each card with a non-empty
  title, link or price, each with the same four keys.\<close>

lemma html_cards_acc:
  assumes "html_cards e b cards acc = Inr rows"
  shows "\<exists>new. rows = acc @ new \<and>
           length new = length (filter (\<lambda>c. truthy (card_title c) \<or>
               (case card_href e b c of Inr h \<Rightarrow> truthy h | Inl x \<Rightarrow> False) \<or>
               truthy (card_price c)) cards) \<and>
           (\<forall>r \<in> set new. map fst r = [''title'', ''url'', ''price'', ''source''])"
  using assms
proof (induction cards arbitrary: acc)
  case Nil
  then show ?case by simp
next
  case (Cons c cards)
  from Cons.prems obtain href where href: "card_href e b c = Inr href"
    by (cases "card_href e b c") auto
  show ?case
  proof (cases "truthy (card_title c) \<or> truthy href \<or> truthy (card_price c)")
    case True
    with Cons.prems href
    have "html_cards e b cards (acc @ [ [(''title'', str_or_none (card_title c)),
            (''url'', str_or_none href), (''price'', str_or_none (card_price c)),
            (''source'', PStr b)] ]) = Inr rows"
      by simp
    from Cons.IH[OF this] True href show ?thesis by auto
  next
    case False
    with Cons.prems href have "html_cards e b cards acc = Inr rows" by simp
    from Cons.IH[OF this] False href show ?thesis by auto
  qed
qed

text \<open>The text of an element is empty exactly when every text node below it is
  white space throughout (or there is none).\<close>

lemma strip_empty: "strip s = [] \<longleftrightarrow> list_all py_isspace s"
proof
  assume "strip s = []"
  then have "\<forall>c \<in> set (dropWhile py_isspace s). py_isspace c"
    by (simp add: strip_def)
  then have "dropWhile py_isspace s = []"
    by (metis hd_dropWhile hd_in_set)
  then show "list_all py_isspace s"
    by (simp add: list_all_iff)
next
  assume "list_all py_isspace s"
  then have d: "dropWhile py_isspace s = []"
    by (simp add: list_all_iff)
  show "strip s = []"
    unfolding strip_def d by simp
qed

lemma get_text_strip_empty:
  "get_text_strip el = [] \<longleftrightarrow> (\<forall>s \<in> set (strings_of el). list_all py_isspace s)"
  by (auto simp: get_text_strip_def strip_empty)

text \<open>
  Claim C9, as stated: a card with a title element and neither link nor price is to
  yield exactly one record. A card whose title element holds only white space yields
  none: the test of line 147 is on the truth value of the stripped title text, and the
  empty string is false.
\<close>

theorem parse_example_html_blank_title_counterexample:
  "select_one title_selector blank_title_card
     = Some (Element ''h2'' [(''class'', ''title'')] [Text [CHR 0x20, CHR 0xA0] ]) \<and>
   select_one link_selector blank_title_card = None \<and>
   select_one price_selector blank_title_card = None \<and>
   parse_example_html (basic_env always_404) (html_response [blank_title_card]) ''https://h''
     = Inr []"
  by code_simp

text \<open>
  Claim C9, amended. When the extractor returns, it has emitted one record for each
  card for which the title text, the resolved link or the price text is a non-empty
  string, and none for the other cards; every record has the four keys \<open>title\<close>,
  \<open>url\<close>, \<open>price\<close>, \<open>source\<close>, an absent field being None. A card with a title
  element of non-empty text and neither link nor price element yields exactly one
  record, with \<open>url\<close> and \<open>price\<close> None; a card with a title element below which
  every text node is white space throughout, and neither link nor price element, yields
  no record; a card with none of the three elements yields no record.
\<close>

theorem parse_example_html_emits:
  "(parse_example_html e resp b = Inr rows \<longrightarrow>
      length rows = length (filter (\<lambda>c. truthy (card_title c) \<or>
               (case card_href e b c of Inr h \<Rightarrow> truthy h | Inl x \<Rightarrow> False) \<or>
               truthy (card_price c)) (select card_selector (resp_soup resp))) \<and>
      (\<forall>r \<in> set rows. map fst r = [''title'', ''url'', ''price'', ''source''])) \<and>
   (select_one title_selector c = Some el \<and> get_text_strip el \<noteq> [] \<and>
    select_one link_selector c = None \<and> select_one price_selector c = None \<longrightarrow>
      html_cards e b [c] [] = Inr [ [(''title'', PStr (get_text_strip el)), (''url'', PNone),
                                    (''price'', PNone), (''source'', PStr b)] ]) \<and>
   (select_one title_selector c = Some el \<and>
    (\<forall>s \<in> set (strings_of el). list_all py_isspace s) \<and>
    select_one link_selector c = None \<and> select_one price_selector c = None \<longrightarrow>
      html_cards e b [c] [] = Inr []) \<and>
   (select_one title_selector c = None \<and>
    select_one link_selector c = None \<and> select_one price_selector c = None \<longrightarrow>
      html_cards e b [c] [] = Inr [])"
proof (intro conjI impI)
  assume "parse_example_html e resp b = Inr rows"
  then have "html_cards e b (select card_selector (resp_soup resp)) [] = Inr rows"
    by (simp add: parse_example_html_def)
  from html_cards_acc[OF this]
  show "length rows = length (filter (\<lambda>c. truthy (card_title c) \<or>
               (case card_href e b c of Inr h \<Rightarrow> truthy h | Inl x \<Rightarrow> False) \<or>
               truthy (card_price c)) (select card_selector (resp_soup resp)))"
    and "\<forall>r \<in> set rows. map fst r = [''title'', ''url'', ''price'', ''source'']"
    by auto
next
  assume "select_one title_selector c = Some el \<and> get_text_strip el \<noteq> [] \<and>
    select_one link_selector c = None \<and> select_one price_selector c = None"
  then show "html_cards e b [c] [] = Inr [ [(''title'', PStr (get_text_strip el)), (''url'', PNone),
                                    (''price'', PNone), (''source'', PStr b)] ]"
    by (simp add: card_title_def card_href_def card_price_def)
next
  assume blank: "select_one title_selector c = Some el \<and>
    (\<forall>s \<in> set (strings_of el). list_all py_isspace s) \<and>
    select_one link_selector c = None \<and> select_one price_selector c = None"
  then have "get_text_strip el = []" by (simp add: get_text_strip_empty)
  with blank show "html_cards e b [c] [] = Inr []"
    by (simp add: card_title_def card_href_def card_price_def)
next
  assume "select_one title_selector c = None \<and>
    select_one link_selector c = None \<and> select_one price_selector c = None"
  then show "html_cards e b [c] [] = Inr []"
    by (simp add: card_title_def card_href_def card_price_def)
qed

theorem parse_example_html_emits_witness:
  "parse_example_html (basic_env always_404)
     (html_response [blank_title_card, title_only_card, bare_card, full_card]) ''https://h''
     = Inr [ [(''title'', PStr ''Lamp''), (''url'', PNone), (''price'', PNone),
             (''source'', PStr ''https://h'')],
            [(''title'', PStr ''Desk''), (''url'', PStr ''https://h/desk''),
             (''price'', PStr ''12''), (''source'', PStr ''https://h'')] ] \<and>
   length (filter (\<lambda>c. truthy (card_title c) \<or>
               (case card_href (basic_env always_404) ''https://h'' c of
                  Inr h \<Rightarrow> truthy h | Inl x \<Rightarrow> False) \<or>
               truthy (card_price c))
            (select card_selector
               (resp_soup (html_response [blank_title_card, title_only_card, bare_card, full_card]))))
     = 2 \<and>
   select_one title_selector title_only_card
     = Some (Element ''h2'' [(''class'', ''title'')] [Text '' Lamp '']) \<and>
   get_text_strip (Element ''h2'' [(''class'', ''title'')] [Text '' Lamp '']) \<noteq> [] \<and>
   select_one link_selector title_only_card = None \<and>
   select_one price_selector title_only_card = None \<and>
   html_cards (basic_env always_404) ''https://h'' [title_only_card] []
     = Inr [ [(''title'', PStr (get_text_strip (Element ''h2'' [(''class'', ''title'')] [Text '' Lamp '']))),
             (''url'', PNone), (''price'', PNone), (''source'', PStr ''https://h'')] ] \<and>
   select_one title_selector blank_title_card
     = Some (Element ''h2'' [(''class'', ''title'')] [Text [CHR 0x20, CHR 0xA0] ]) \<and>
   strings_of (Element ''h2'' [(''class'', ''title'')] [Text [CHR 0x20, CHR 0xA0] ])
     = [ [CHR 0x20, CHR 0xA0] ] \<and>
   py_isspace (CHR 0x20) \<and> py_isspace (CHR 0xA0) \<and>
   select_one link_selector blank_title_card = None \<and>
   select_one price_selector blank_title_card = None \<and>
   html_cards (basic_env always_404) ''https://h'' [blank_title_card] [] = Inr [] \<and>
   select_one title_selector bare_card = None \<and>
   select_one link_selector bare_card = None \<and>
   select_one price_selector bare_card = None \<and>
   html_cards (basic_env always_404) ''https://h'' [bare_card] [] = Inr []"
proof -
  let ?e = "basic_env always_404"
  let ?resp = "html_response [blank_title_card, title_only_card, bare_card, full_card]"
  let ?rows = "[ [(''title'', PStr ''Lamp''), (''url'', PNone), (''price'', PNone),
             (''source'', PStr ''https://h'')],
            [(''title'', PStr ''Desk''), (''url'', PStr ''https://h/desk''),
             (''price'', PStr ''12''), (''source'', PStr ''https://h'')] ]"
  let ?el = "Element ''h2'' [(''class'', ''title'')] [Text '' Lamp '']"
  have run: "parse_example_html ?e ?resp ''https://h'' = Inr ?rows"
    by code_simp
  have t: "select_one title_selector title_only_card = Some ?el"
    and tx: "get_text_strip ?el \<noteq> []"
    and l: "select_one link_selector title_only_card = None"
    and p: "select_one price_selector title_only_card = None"
    by code_simp+
  let ?blank = "Element ''h2'' [(''class'', ''title'')] [Text [CHR 0x20, CHR 0xA0] ]"
  have kt: "select_one title_selector blank_title_card = Some ?blank"
    and kl: "select_one link_selector blank_title_card = None"
    and kp: "select_one price_selector blank_title_card = None"
    by code_simp+
  have ks: "strings_of ?blank = [ [CHR 0x20, CHR 0xA0] ]" by simp
  have sp: "py_isspace (CHR 0x20)" "py_isspace (CHR 0xA0)" by (simp_all add: py_isspace_def)
  from ks sp have kx: "\<forall>s \<in> set (strings_of ?blank). list_all py_isspace s"
    by simp
  have bt: "select_one title_selector bare_card = None"
    and bl: "select_one link_selector bare_card = None"
    and bp: "select_one price_selector bare_card = None"
    by code_simp+
  from parse_example_html_emits[of ?e ?resp "''https://h''" ?rows title_only_card ?el] run
  have n: "length (filter (\<lambda>c. truthy (card_title c) \<or>
               (case card_href ?e ''https://h'' c of Inr h \<Rightarrow> truthy h | Inl x \<Rightarrow> False) \<or>
               truthy (card_price c)) (select card_selector (resp_soup ?resp))) = 2"
    by simp
  from parse_example_html_emits[of ?e ?resp "''https://h''" ?rows title_only_card ?el] t tx l p
  have one: "html_cards ?e ''https://h'' [title_only_card] []
     = Inr [ [(''title'', PStr (get_text_strip ?el)),
             (''url'', PNone), (''price'', PNone), (''source'', PStr ''https://h'')] ]"
    by blast
  from parse_example_html_emits[of ?e ?resp "''https://h''" ?rows blank_title_card ?blank] kt kx kl kp
  have blank: "html_cards ?e ''https://h'' [blank_title_card] [] = Inr []"
    by blast
  from parse_example_html_emits[of ?e ?resp "''https://h''" ?rows bare_card ?el] bt bl bp
  have none: "html_cards ?e ''https://h'' [bare_card] [] = Inr []"
    by blast
  from run n t tx l p one kt ks sp kl kp blank bt bl bp none show ?thesis by blast
qed

section \<open>Properties of \<open>mine_target\<close>\<close>

declare mine_loop.simps [simp del]

lemma initial_inv: "crawl_inv (initial t c0)"
  by (simp add: crawl_inv_def initial_def)

lemma loop_body_inv:
  assumes "crawl_inv s"
    and "loop_body e f t rr s = Next s' \<or> loop_body e f t rr s = Abort err s'"
  shows "crawl_inv s'"
proof (cases "queue s")
  case Nil
  with assms show ?thesis by (simp add: loop_body_def)
next
  case (Cons url rest)
  show ?thesis
  proof (cases "url |\<in>| seen_urls s")
    case True
    with Cons assms show ?thesis by (auto simp: loop_body_def crawl_inv_def)
  next
    case False
    with assms(1) have "url \<notin> set (marked s)" by (simp add: crawl_inv_def)
    with Cons False assms show ?thesis
      by (auto simp: loop_body_def crawl_inv_def Let_def
               split: if_splits prod.splits sum.splits option.splits)
  qed
qed

lemma mine_loop_inv:
  "crawl_inv s \<Longrightarrow> mine_loop e f t max_pages rr s = (r, s') \<Longrightarrow> crawl_inv s'"
proof (induction e f t max_pages rr s rule: mine_loop.induct)
  case (1 e f t max_pages rr s)
  show ?case
  proof (cases "queue s \<noteq> [] \<and> int (fcard (seen_urls s)) < max_pages")
    case False
    with "1.prems" show ?thesis by (simp add: mine_loop.simps[of e f t max_pages rr s])
  next
    case True
    show ?thesis
    proof (cases "loop_body e f t rr s")
      case (Next s1)
      with True "1.prems"(2) have "mine_loop e f t max_pages rr s1 = (r, s')"
        by (simp add: mine_loop.simps[of e f t max_pages rr s])
      with "1.IH"[OF True Next] loop_body_inv[OF "1.prems"(1), of e f t rr s1] Next
      show ?thesis by simp
    next
      case (Abort err s1)
      with True "1.prems"(2) have "s' = s1"
        by (simp add: mine_loop.simps[of e f t max_pages rr s])
      with loop_body_inv[OF "1.prems"(1), of e f t rr s1 err] Abort show ?thesis by simp
    qed
  qed
qed

lemma crawl_inv_count: "crawl_inv s \<Longrightarrow> length (marked s) = fcard (seen_urls s)"
  by (metis crawl_inv_def distinct_card fcard.rep_eq)

text \<open>One run of the body adds at most one URL to \<open>seen_urls\<close>.\<close>

lemma loop_body_fcard:
  assumes "loop_body e f t rr s = Next s' \<or> loop_body e f t rr s = Abort err s'"
  shows "fcard (seen_urls s') \<le> Suc (fcard (seen_urls s))"
proof (cases "queue s")
  case Nil
  with assms show ?thesis by (simp add: loop_body_def)
next
  case (Cons url rest)
  have "seen_urls s' = seen_urls s \<or> seen_urls s' = finsert url (seen_urls s)"
    using Cons assms
    by (auto simp: loop_body_def Let_def split: if_splits prod.splits sum.splits option.splits)
  then show ?thesis
    by (auto simp: fcard_finsert_if)
qed

lemma mine_loop_bound:
  "int (fcard (seen_urls s)) \<le> b \<Longrightarrow> max_pages \<le> b \<Longrightarrow>
   mine_loop e f t max_pages rr s = (r, s') \<Longrightarrow> int (fcard (seen_urls s')) \<le> b"
proof (induction e f t max_pages rr s rule: mine_loop.induct)
  case (1 e f t max_pages rr s)
  show ?case
  proof (cases "queue s \<noteq> [] \<and> int (fcard (seen_urls s)) < max_pages")
    case False
    with "1.prems" show ?thesis by (simp add: mine_loop.simps[of e f t max_pages rr s])
  next
    case True
    show ?thesis
    proof (cases "loop_body e f t rr s")
      case (Next s1)
      with True "1.prems"(3) have run: "mine_loop e f t max_pages rr s1 = (r, s')"
        by (simp add: mine_loop.simps[of e f t max_pages rr s])
      from loop_body_fcard[of e f t rr s s1] Next True "1.prems"(2)
      have "int (fcard (seen_urls s1)) \<le> b" by auto
      from "1.IH"[OF True Next this "1.prems"(2) run] show ?thesis .
    next
      case (Abort err s1)
      with True "1.prems"(3) have "s' = s1"
        by (simp add: mine_loop.simps[of e f t max_pages rr s])
      with loop_body_fcard[of e f t rr s s1 err] Abort True "1.prems"(2) show ?thesis by auto
    qed
  qed
qed

lemma mine_loop_exit:
  "mine_loop e f t max_pages rr s = (None, s') \<Longrightarrow>
   queue s' = [] \<or> max_pages \<le> int (fcard (seen_urls s'))"
proof (induction e f t max_pages rr s rule: mine_loop.induct)
  case (1 e f t max_pages rr s)
  show ?case
  proof (cases "queue s \<noteq> [] \<and> int (fcard (seen_urls s)) < max_pages")
    case False
    with "1.prems" show ?thesis by (auto simp add: mine_loop.simps[of e f t max_pages rr s])
  next
    case True
    show ?thesis
    proof (cases "loop_body e f t rr s")
      case (Next s1)
      with True "1.prems" have run: "mine_loop e f t max_pages rr s1 = (None, s')"
        by (simp add: mine_loop.simps[of e f t max_pages rr s])
      from "1.IH"[OF True Next run] show ?thesis .
    next
      case (Abort err s1)
      with True "1.prems" show ?thesis
        by (simp add: mine_loop.simps[of e f t max_pages rr s])
    qed
  qed
qed


text \<open>
  Claim C4. In every run of \<open>mine_target\<close>, whatever the start URLs and whatever
  discovery returns, no URL is added to \<open>seen_urls\<close> twice and \<open>fetcher.get\<close> is
  not called twice with the same URL: the log of the additions and the log of the
  calls have no repetition, and every URL passed to \<open>fetcher.get\<close> is a seen one.
\<close>

theorem mine_target_fetches_each_url_once:
  "distinct (marked (snd (mine_run e f t max_pages rr c0))) \<and>
   distinct (fetched (snd (mine_run e f t max_pages rr c0))) \<and>
   set (marked (snd (mine_run e f t max_pages rr c0)))
     = fset (seen_urls (snd (mine_run e f t max_pages rr c0))) \<and>
   set (fetched (snd (mine_run e f t max_pages rr c0)))
     \<subseteq> fset (seen_urls (snd (mine_run e f t max_pages rr c0)))"
proof -
  obtain r s' where run: "mine_loop e f t max_pages rr (initial t c0) = (r, s')"
    by (cases "mine_loop e f t max_pages rr (initial t c0)")
  from mine_loop_inv[OF initial_inv run] have "crawl_inv s'" .
  with run show ?thesis by (auto simp: mine_run_def crawl_inv_def)
qed

theorem mine_target_fetches_each_url_once_witness:
  "start_urls demo_target = [''https://h/a'', ''https://h/a''] \<and>
   fetched (snd (mine_run (basic_env demo_site) demo_fetcher demo_target 10 True 0))
     = [''https://h/a'', ''https://h/b''] \<and>
   distinct (fetched (snd (mine_run (basic_env demo_site) demo_fetcher demo_target 10 True 0))) \<and>
   distinct (marked (snd (mine_run (basic_env demo_site) demo_fetcher demo_target 10 True 0)))"
proof -
  have "start_urls demo_target = [''https://h/a'', ''https://h/a'']"
    by (simp add: demo_target_def)
  moreover
  have "fetched (snd (mine_run (basic_env demo_site) demo_fetcher demo_target 10 True 0))
     = [''https://h/a'', ''https://h/b'']"
    by code_simp
  ultimately show ?thesis
    using mine_target_fetches_each_url_once[of "basic_env demo_site" demo_fetcher demo_target 10 True 0]
    by blast
qed

text \<open>
  Claim C5, as stated: for any \<open>max_pages\<close>, the number of URLs added to
  \<open>seen_urls\<close> is never to exceed \<open>max_pages\<close>. For a negative \<open>max_pages\<close> the
  loop does not run and the number is 0, which exceeds \<open>max_pages\<close>.
\<close>

theorem mine_target_negative_budget_counterexample:
  "marked (snd (mine_run (basic_env endless_site) demo_fetcher endless_target (- 1) False 0)) = [] \<and>
   fcard (seen_urls (snd (mine_run (basic_env endless_site) demo_fetcher endless_target (- 1) False 0))) = 0 \<and>
   \<not> int (fcard (seen_urls (snd (mine_run (basic_env endless_site) demo_fetcher endless_target (- 1) False 0))))
       \<le> - 1"
  by (simp add: mine_run_def mine_loop.simps initial_def fcard_fempty)

text \<open>
  Claim C5, amended. The loop ends for every \<open>max_pages\<close> and every discovery
  function (\<open>mine_loop\<close> is a total function; its termination is proved with the
  definition). For \<open>max_pages \<ge> 0\<close> the number of URLs added to \<open>seen_urls\<close> does
  not exceed \<open>max_pages\<close>; for \<open>max_pages < 0\<close> none is added. When the loop ends
  without an exception, the queue is empty or \<open>len(seen_urls)\<close> has reached
  \<open>max_pages\<close>.
\<close>

theorem mine_target_seen_bound:
  "length (marked (snd (mine_run e f t max_pages rr c0)))
     = fcard (seen_urls (snd (mine_run e f t max_pages rr c0))) \<and>
   (0 \<le> max_pages \<longrightarrow>
      int (fcard (seen_urls (snd (mine_run e f t max_pages rr c0)))) \<le> max_pages) \<and>
   (max_pages < 0 \<longrightarrow> marked (snd (mine_run e f t max_pages rr c0)) = []) \<and>
   (fst (mine_run e f t max_pages rr c0) = None \<longrightarrow>
      queue (snd (mine_run e f t max_pages rr c0)) = [] \<or>
      max_pages \<le> int (fcard (seen_urls (snd (mine_run e f t max_pages rr c0)))))"
proof -
  obtain r s' where run: "mine_loop e f t max_pages rr (initial t c0) = (r, s')"
    by (cases "mine_loop e f t max_pages rr (initial t c0)")
  from mine_loop_inv[OF initial_inv run] have inv: "crawl_inv s'" .
  then have count: "length (marked s') = fcard (seen_urls s')" by (rule crawl_inv_count)
  have start: "fcard (seen_urls (initial t c0)) = 0" by (simp add: initial_def)
  have bound: "0 \<le> max_pages \<Longrightarrow> int (fcard (seen_urls s')) \<le> max_pages"
    using mine_loop_bound[of "initial t c0" max_pages max_pages e f t rr r s'] run start by simp
  have neg: "max_pages < 0 \<Longrightarrow> marked s' = []"
    using mine_loop_bound[of "initial t c0" 0 max_pages e f t rr r s'] run start count
    by (simp add: fcard_fempty)
  have stop: "r = None \<Longrightarrow> queue s' = [] \<or> max_pages \<le> int (fcard (seen_urls s'))"
    using mine_loop_exit[of e f t max_pages rr "initial t c0" s'] run by simp
  from count bound neg stop run show ?thesis by (simp add: mine_run_def)
qed

theorem mine_target_seen_bound_witness:
  "(0::int) \<le> 3 \<and>
   int (fcard (seen_urls (snd (mine_run (basic_env endless_site) demo_fetcher endless_target 3 False 0)))) \<le> 3 \<and>
   marked (snd (mine_run (basic_env endless_site) demo_fetcher endless_target 3 False 0))
     = [''https://h'', ''https://h/n'', ''https://h/n/n''] \<and>
   queue (snd (mine_run (basic_env endless_site) demo_fetcher endless_target 3 False 0))
     = [''https://h/n/n/n''] \<and>
   fst (mine_run (basic_env endless_site) demo_fetcher endless_target 3 False 0) = None \<and>
   (- 1::int) < 0 \<and>
   marked (snd (mine_run (basic_env endless_site) demo_fetcher endless_target (- 1) False 0)) = []"
proof -
  have m: "marked (snd (mine_run (basic_env endless_site) demo_fetcher endless_target 3 False 0))
     = [''https://h'', ''https://h/n'', ''https://h/n/n'']"
    by code_simp
  have q: "queue (snd (mine_run (basic_env endless_site) demo_fetcher endless_target 3 False 0))
     = [''https://h/n/n/n'']"
    by code_simp
  have r: "fst (mine_run (basic_env endless_site) demo_fetcher endless_target 3 False 0) = None"
    by code_simp
  from mine_target_seen_bound[of "basic_env endless_site" demo_fetcher endless_target 3 False 0]
  have b: "int (fcard (seen_urls (snd (mine_run (basic_env endless_site) demo_fetcher endless_target 3 False 0)))) \<le> 3"
    by simp
  from mine_target_seen_bound[of "basic_env endless_site" demo_fetcher endless_target "- 1" False 0]
  have n: "marked (snd (mine_run (basic_env endless_site) demo_fetcher endless_target (- 1) False 0)) = []"
    by simp
  from m q r b n show ?thesis by simp
qed



text \<open>
  Claim C8. With \<open>respect_robots\<close> on, when the URL at the front of the queue is new
  and \<open>robots_allows\<close> denies it, the loop body adds the URL to \<open>seen_urls\<close>, which
  grows by one, sends the one request for robots.txt and nothing else, calls neither
  \<open>fetcher.get\<close> nor the parser, leaves \<open>collected\<close> as it is, and the loop goes on
  from the rest of the queue.
\<close>

theorem mine_target_robots_skip:
  assumes "queue s = url # rest"
    and "int (fcard (seen_urls s)) < max_pages"
    and "url |\<notin>| seen_urls s"
    and "robots_allows e url [] (clock s) = (Inr False, c)"
  shows "\<exists>s'. loop_body e f t True s = Next s' \<and>
              mine_loop e f t max_pages True s = mine_loop e f t max_pages True s' \<and>
              seen_urls s' = finsert url (seen_urls s) \<and>
              fcard (seen_urls s') = Suc (fcard (seen_urls s)) \<and>
              queue s' = rest \<and>
              collected s' = collected s \<and>
              fetched s' = fetched s \<and>
              skipped s' = skipped s @ [url] \<and>
              clock s' = Suc (clock s)"
proof -
  let ?s' = "s\<lparr>queue := rest, seen_urls := finsert url (seen_urls s),
               marked := marked s @ [url], clock := c, skipped := skipped s @ [url]\<rparr>"
  from assms(4) have c: "c = Suc (clock s)"
    by (auto simp: robots_allows_def split: sum.splits)
  from assms(1,3,4) have body: "loop_body e f t True s = Next ?s'"
    by (simp add: loop_body_def Let_def)
  with assms(1,2) have "mine_loop e f t max_pages True s = mine_loop e f t max_pages True ?s'"
    by (simp add: mine_loop.simps[of e f t max_pages True s])
  moreover from assms(3) have "fcard (seen_urls ?s') = Suc (fcard (seen_urls s))"
    by (simp add: fcard_finsert_disjoint)
  ultimately show ?thesis using body c by auto
qed

theorem mine_target_robots_skip_witness:
  "queue (initial private_target 0) = ''https://h/private/x'' # [''https://h/a''] \<and>
   int (fcard (seen_urls (initial private_target 0))) < 10 \<and>
   ''https://h/private/x'' |\<notin>| seen_urls (initial private_target 0) \<and>
   robots_allows (basic_env demo_site) ''https://h/private/x'' [] (clock (initial private_target 0))
     = (Inr False, 1) \<and>
   (\<exists>s'. loop_body (basic_env demo_site) demo_fetcher private_target True (initial private_target 0)
            = Next s' \<and>
          seen_urls s' = finsert ''https://h/private/x'' (seen_urls (initial private_target 0)) \<and>
          queue s' = [''https://h/a''] \<and> collected s' = [] \<and> fetched s' = [] \<and> clock s' = 1) \<and>
   mine_target (basic_env demo_site) demo_fetcher private_target 10 True 0
     = Inr [ [(''id'', PInt 1), (''name'', PStr ''a''), (''value'', PNone),
             (''source'', PStr ''https://h'')] ] \<and>
   fetched (snd (mine_run (basic_env demo_site) demo_fetcher private_target 10 True 0))
     = [''https://h/a'']"
proof -
  have q: "queue (initial private_target 0) = ''https://h/private/x'' # [''https://h/a'']"
    by (simp add: initial_def private_target_def)
  have budget: "int (fcard (seen_urls (initial private_target 0))) < 10"
    by (simp add: initial_def fcard_fempty)
  have fresh: "''https://h/private/x'' |\<notin>| seen_urls (initial private_target 0)"
    by (simp add: initial_def)
  have robots: "robots_allows (basic_env demo_site) ''https://h/private/x'' []
                  (clock (initial private_target 0)) = (Inr False, 1)"
    by code_simp
  have init: "collected (initial private_target 0) = []" "fetched (initial private_target 0) = []"
    "clock (initial private_target 0) = 0"
    by (simp_all add: initial_def)
  from mine_target_robots_skip[OF q budget fresh robots, of demo_fetcher private_target] init
  have step: "\<exists>s'. loop_body (basic_env demo_site) demo_fetcher private_target True
                      (initial private_target 0) = Next s' \<and>
          seen_urls s' = finsert ''https://h/private/x'' (seen_urls (initial private_target 0)) \<and>
          queue s' = [''https://h/a''] \<and> collected s' = [] \<and> fetched s' = [] \<and> clock s' = 1"
    by auto
  have run: "mine_target (basic_env demo_site) demo_fetcher private_target 10 True 0
     = Inr [ [(''id'', PInt 1), (''name'', PStr ''a''), (''value'', PNone),
             (''source'', PStr ''https://h'')] ]"
    by code_simp
  have f: "fetched (snd (mine_run (basic_env demo_site) demo_fetcher private_target 10 True 0))
     = [''https://h/a'']"
    by code_simp
  from q budget fresh robots step run f show ?thesis by blast
qed

end
